theory Spec2Isabelle
  imports Complex_Main "HOL-Library.Word"
begin

section \<open>Logging (main.py, lines 26-55)\<close>

text \<open>
  The five levels of \<^verbatim>\<open>class LogLevel(Enum)\<close> and the module constant
  \<^verbatim>\<open>LOG_LEVELS = [LogLevel.INFO]\<close>.
\<close>

datatype LogLevel = INFO | WARN | ERROR | DEBUG | VERBOSE

definition LOG_LEVELS :: "LogLevel list" where
  "LOG_LEVELS = [INFO]"

type_synonym byte = "8 word"

text \<open>
  The exception classes that the code names or that one of its statements raises.
  Every one of them is a subclass of Python's \<^verbatim>\<open>Exception\<close>.
\<close>

datatype exn = OSError | SerialException | TypeError | IndexError | AttributeError
  | SyntaxError | OtherException

text \<open>
  What is printed. A line of a logger is \<^verbatim>\<open>print(f"[{level.name}]", *a)\<close>; its
  arguments are kept as a value of \<open>message\<close>. The time stamp \<^verbatim>\<open>self.ts()\<close> of the two
  forwarding lines is wall-clock time and is left out. \<open>Traceback\<close> is the output of
  \<^verbatim>\<open>traceback.print_exc()\<close> (and of the interpreter for an exception that ends a
  thread).
\<close>

datatype message =
    MidiDeviceCreated string
  | NoSerialDevicesFound
  | UsingSerialDevice "string option"
  | SerialOpenFailed
  | SerToMidi byte byte byte
  | MidiToSer byte byte byte
  | ExitedCleanly
  | ExceptionText exn

datatype out_line = Line LogLevel message | Traceback exn

text \<open>
  \<^verbatim>\<open>def logger(level)\<close>: a level that is not in \<^verbatim>\<open>LOG_LEVELS\<close> gets the function that
  prints nothing.
\<close>

definition logger :: "LogLevel \<Rightarrow> message \<Rightarrow> out_line list" where
  "logger level = (if level \<notin> set LOG_LEVELS then (\<lambda>a. []) else (\<lambda>a. [Line level a]))"

definition info :: "message \<Rightarrow> out_line list" where
  "info = logger INFO"

definition warn :: "message \<Rightarrow> out_line list" where
  "warn = logger WARN"

definition error :: "message \<Rightarrow> out_line list" where
  "error = logger ERROR"

definition debug :: "message \<Rightarrow> out_line list" where
  "debug = logger DEBUG"

definition verbose :: "message \<Rightarrow> out_line list" where
  "verbose = logger VERBOSE"

text \<open>\<^verbatim>\<open>def logException(e): error(e); traceback.print_exc()\<close>\<close>

definition logException :: "exn \<Rightarrow> out_line list" where
  "logException e = error (ExceptionText e) @ [Traceback e]"

definition warn_lines :: "out_line list \<Rightarrow> out_line list" where
  "warn_lines = filter (\<lambda>l. case l of Line lv m \<Rightarrow> lv = WARN | Traceback e \<Rightarrow> False)"


section \<open>Device discovery (main.py, lines 47-50 and 194-215)\<close>

text \<open>
  Python values that a device descriptor holds and that a match expression yields.
\<close>

datatype pyval = PNone | PBool bool | PInt int | PStr string

fun truthy :: "pyval \<Rightarrow> bool" where
  "truthy PNone = False"
| "truthy (PBool b) = b"
| "truthy (PInt i) = (i \<noteq> 0)"
| "truthy (PStr s) = (s \<noteq> [])"

text \<open>
  What \<^verbatim>\<open>serial.tools.list_ports.comports()\<close> reports for one port.
\<close>

record port =
  device :: string
  product :: "string option"
  vid :: "int option"
  pid :: "int option"
  manufacturer :: "string option"

text \<open>
  \<^verbatim>\<open>class dotdict(dict)\<close>: a dictionary, kept as an association list. Its
  \<^verbatim>\<open>__getattr__\<close> is \<^verbatim>\<open>dict.get\<close>, so that reading an attribute whose key is not in
  the dictionary gives \<^verbatim>\<open>None\<close> and raises nothing.
\<close>

type_synonym dotdict = "(string \<times> pyval) list"

definition dotdict_getattr :: "dotdict \<Rightarrow> string \<Rightarrow> pyval" where
  "dotdict_getattr d k = (case map_of d k of None \<Rightarrow> PNone | Some v \<Rightarrow> v)"

definition of_str :: "string option \<Rightarrow> pyval" where
  "of_str x = (case x of None \<Rightarrow> PNone | Some s \<Rightarrow> PStr s)"

definition of_int_opt :: "int option \<Rightarrow> pyval" where
  "of_int_opt x = (case x of None \<Rightarrow> PNone | Some i \<Rightarrow> PInt i)"

definition to_str :: "pyval \<Rightarrow> string option" where
  "to_str v = (case v of PStr s \<Rightarrow> Some s | _ \<Rightarrow> None)"

text \<open>The inner \<^verbatim>\<open>async def inspect(p)\<close> of \<^verbatim>\<open>findDevices\<close>.\<close>

definition inspect :: "port \<Rightarrow> dotdict" where
  "inspect p =
     [(''device_path'', PStr (device p)),
      (''usb_description'', of_str (product p)),
      (''usb_vid'', of_int_opt (vid p)),
      (''usb_pid'', of_int_opt (pid p)),
      (''usb_manufacturer'', of_str (manufacturer p))]"

text \<open>
  The result of \<^verbatim>\<open>eval(eval_match)\<close> with the descriptor bound to \<^verbatim>\<open>d\<close>: a value,
  an exception of class \<^verbatim>\<open>Exception\<close>, or an exception outside that class
  (\<^verbatim>\<open>SystemExit\<close>, \<^verbatim>\<open>KeyboardInterrupt\<close>), which \<^verbatim>\<open>except Exception\<close> does not
  catch. A match expression is kept as the function from the descriptor to this result;
  \<^verbatim>\<open>None\<close> and the empty string, both false in \<^verbatim>\<open>if eval_match:\<close>, are \<open>None\<close>.
\<close>

datatype eval_result = Value pyval | RaisesException exn | RaisesBaseException

type_synonym matcher = "dotdict \<Rightarrow> eval_result"









text \<open>
  \<^verbatim>\<open>async def findDevices(eval_match)\<close> over the descriptors in the order in which
  \<^verbatim>\<open>asyncio.as_completed\<close> delivers them. The result is the list of the descriptors
  yielded, or \<open>Inl ()\<close> when an exception that \<^verbatim>\<open>except Exception\<close> does not catch
  leaves the generator.
\<close>

fun findDevices :: "matcher option \<Rightarrow> dotdict list \<Rightarrow> unit + dotdict list" where
  "findDevices eval_match [] = Inr []"
| "findDevices eval_match (d # ds) =
     (case eval_match of
        None \<Rightarrow> map_sum id ((#) d) (findDevices eval_match ds)
      | Some ev \<Rightarrow>
          (case ev d of
             Value v \<Rightarrow>
               (if \<not> truthy v then findDevices eval_match ds
                else map_sum id ((#) d) (findDevices eval_match ds))
           | RaisesException e \<Rightarrow> findDevices eval_match ds
           | RaisesBaseException \<Rightarrow> Inl ()))"



section \<open>The bridge (main.py, lines 58-191)\<close>

subsection \<open>Configuration and state\<close>

text \<open>
  The arguments of \<^verbatim>\<open>Serial2Midi.__init__\<close>, which the code never assigns again. The
  sleep interval is a Python float that the code only passes to \<^verbatim>\<open>time.sleep\<close>; it is
  kept as a rational number and assumed to be one \<^verbatim>\<open>time.sleep\<close> accepts.
\<close>

record config =
  name :: string
  baud_rate :: int
  sleep_interval :: rat
  eval_match :: "matcher option"
  manual_device :: "string option"
  midi_suffix :: "string option"
  forced_midi_name :: "string option"

text \<open>Python's truth value of a string or \<^verbatim>\<open>None\<close>.\<close>

definition str_truthy :: "string option \<Rightarrow> bool" where
  "str_truthy x = (case x of None \<Rightarrow> False | Some s \<Rightarrow> s \<noteq> [])"

definition midi_name :: "config \<Rightarrow> string" where
  "midi_name cfg =
     (if str_truthy (forced_midi_name cfg) then the (forced_midi_name cfg)
      else name cfg @ (if str_truthy (midi_suffix cfg) then ''-'' @ the (midi_suffix cfg) else []))"

text \<open>
  The places of \<^verbatim>\<open>Serial2Midi.run\<close> between which another thread or a signal handler
  can act, each named after the statement that runs next:
  \<^item> \<open>PC_init\<close>: lines 94-109, the two virtual ports are created;
  \<^item> \<open>PC_loop\<close>: line 111, the test of the outer \<^verbatim>\<open>while\<close>, and lines 112-114, 122;
  \<^item> \<open>PC_discover\<close>: lines 115-122; \<open>PC_sleep_nodev\<close>: lines 118-119;
  \<^item> \<open>PC_open_check\<close>: line 125, the test of the \<^verbatim>\<open>while\<close> of \<^verbatim>\<open>open_serial\<close>
    (and lines 136-140 when it fails);
  \<^item> \<open>PC_open_try\<close>: lines 126-134, the call of \<^verbatim>\<open>serial.Serial\<close>;
    \<open>PC_open_sleep\<close>: line 135;
  \<^item> \<open>PC_install\<close>: lines 142-143; \<open>PC_set_cb\<close>: lines 145-147;
    \<open>PC_start_reader\<close>: lines 149-157; \<open>PC_wait\<close>: line 159;
  \<^item> \<open>PC_stop_serial\<close>: line 161; \<open>PC_close_ser\<close>: line 162; \<open>PC_sleep_conn\<close>: line 163;
  \<^item> \<open>PC_close_ports\<close>: lines 165-167; \<open>PC_stopped\<close>: \<^verbatim>\<open>run\<close> has returned;
  \<^item> \<open>PC_crashed\<close>: an exception has left \<^verbatim>\<open>run\<close>.
\<close>

datatype pc =
    PC_init | PC_loop | PC_discover | PC_sleep_nodev
  | PC_open_check | PC_open_try | PC_open_sleep
  | PC_install | PC_set_cb | PC_start_reader | PC_wait
  | PC_stop_serial | PC_close_ser | PC_sleep_conn
  | PC_close_ports | PC_stopped | PC_crashed

text \<open>The state of one reader thread (the \<^verbatim>\<open>worker\<close> of \<^verbatim>\<open>serial_set_callback\<close>).\<close>

datatype wstatus = Running | Exited | Died

text \<open>The three calls of \<^verbatim>\<open>time.sleep\<close>: lines 118, 135 and 163.\<close>

datatype sleep_site = SleepNoDevice | SleepOpenRetry | SleepAfterClose

text \<open>
  The state of the bridge and of what it has done to the world.
  \<^item> \<open>should_stop\<close> is \<^verbatim>\<open>self.should_stop\<close>.
  \<^item> \<open>interrupt\<close> is \<^verbatim>\<open>self._interrupt\<close>: \<open>None\<close> for Python's \<^verbatim>\<open>None\<close>, \<open>Some f\<close> for
    the \<^verbatim>\<open>set\<close> method of a \<^verbatim>\<open>threading.Event\<close> whose flag is \<open>f\<close>. Lines 142-143 create
    the event and store it in the local \<^verbatim>\<open>interrupt\<close> and in \<^verbatim>\<open>self._interrupt\<close> and no
    other statement assigns either, so the event \<^verbatim>\<open>interrupt.wait()\<close> waits for is this
    one, and an event replaced at line 143 is referenced nowhere.
  \<^item> \<open>device_path\<close>, \<open>ser\<close> and \<open>stop_serial\<close> are the locals of \<^verbatim>\<open>run\<close>: \<open>ser\<close> is the
    index in \<open>handles\<close> of the \<^verbatim>\<open>serial.Serial\<close> object it holds, \<open>stop_serial\<close> the index
    in \<open>workers\<close> of the thread whose \<^verbatim>\<open>stop_event\<close> it sets. The closure given to
    \<^verbatim>\<open>midi_in.set_callback\<close> reads the variable \<^verbatim>\<open>ser\<close> when it is called.
  \<^item> \<open>handles\<close> holds, for every \<^verbatim>\<open>serial.Serial\<close> object opened, how often \<^verbatim>\<open>close()\<close>
    was called on it; \<open>workers\<close>, for every reader thread started, its status and the flag
    of its \<^verbatim>\<open>stop_event\<close>; \<open>callback\<close>, whether \<^verbatim>\<open>midi_in\<close> has a callback;
    \<open>midi_in_closed\<close> and \<open>midi_out_closed\<close>, how often \<^verbatim>\<open>close_port()\<close> was called.
  \<^item> \<open>midi_sent\<close> are the messages given to \<^verbatim>\<open>midi_out.send_message\<close>, \<open>ser_written\<close> the
    arguments of the calls of \<^verbatim>\<open>write\<close> that returned (with the handle), \<open>printed\<close> the
    lines printed, \<open>sleeps\<close> the calls of \<^verbatim>\<open>time.sleep\<close>, \<open>discoveries\<close> the number of
    calls of \<^verbatim>\<open>findDevices\<close>, \<open>opens\<close> the calls of \<^verbatim>\<open>serial.Serial\<close> with the path
    given and whether the call returned a handle.
\<close>

record state =
  should_stop :: bool
  interrupt :: "bool option"
  pc :: pc
  device_path :: "string option"
  ser :: "nat option"
  stop_serial :: "nat option"
  handles :: "nat list"
  workers :: "(wstatus \<times> bool) list"
  callback :: bool
  midi_in_closed :: nat
  midi_out_closed :: nat
  midi_sent :: "byte list list"
  ser_written :: "(nat \<times> byte list) list"
  printed :: "out_line list"
  sleeps :: "(sleep_site \<times> rat) list"
  discoveries :: nat
  opens :: "(string option \<times> bool) list"

text \<open>The state after \<^verbatim>\<open>Serial2Midi.__init__\<close>, before \<^verbatim>\<open>run\<close> starts.\<close>

definition init :: state where
  "init = \<lparr>should_stop = False, interrupt = None, pc = PC_init, device_path = None,
     ser = None, stop_serial = None, handles = [], workers = [], callback = False,
     midi_in_closed = 0, midi_out_closed = 0, midi_sent = [], ser_written = [],
     printed = [], sleeps = [], discoveries = 0, opens = []\<rparr>"

subsection \<open>What the environment decides\<close>

text \<open>
  The outcome of \<^verbatim>\<open>serial.Serial(...)\<close> (a handle, a \<^verbatim>\<open>SerialException\<close>, or another
  exception, which \<^verbatim>\<open>open_serial\<close> does not catch), of \<^verbatim>\<open>serial_dev.read(3)\<close> (the bytes
  read, none at a timeout, or an exception) and of \<^verbatim>\<open>ser.write(buf)\<close>.
\<close>

datatype open_outcome = OpenOk | OpenSerialException | OpenOtherError

datatype read_outcome = ReadData "byte list" | ReadRaises exn

datatype write_outcome = WriteOk | WriteRaises exn

text \<open>
  One event of an execution:
  \<^item> \<open>Main ps oo\<close>: the thread of \<^verbatim>\<open>run\<close> executes the statements of its place; \<open>ps\<close> are
    the ports a discovery at this moment finds, in the order in which they are delivered,
    and \<open>oo\<close> the outcome an attempt to open the device has at this moment;
  \<^item> \<open>Stop\<close>: \<^verbatim>\<open>stop()\<close> is called (by the handler of a termination signal);
  \<^item> \<open>MidiIn msg wo\<close>: a message arrives on the virtual input port, and \<open>wo\<close> is the
    outcome of a write at this moment;
  \<^item> \<open>Reader i r\<close>: reader thread \<open>i\<close> runs one turn of its loop, and \<open>r\<close> is the outcome
    of its read.
\<close>

datatype event =
    Main "port list" open_outcome
  | Stop
  | MidiIn "byte list" write_outcome
  | Reader nat read_outcome

subsection \<open>The methods\<close>

text \<open>\<^verbatim>\<open>def stop(self)\<close>, lines 170-173.\<close>

definition stop :: "state \<Rightarrow> state" where
  "stop s =
     (let s1 = s\<lparr>should_stop := True\<rparr>
      in case interrupt s1 of None \<Rightarrow> s1 | Some f \<Rightarrow> s1\<lparr>interrupt := Some True\<rparr>)"

text \<open>\<^verbatim>\<open>def process_serial_in(self, buf, midi_out)\<close>, lines 176-179.\<close>

definition process_serial_in :: "byte list \<Rightarrow> state \<Rightarrow> state" where
  "process_serial_in buf s =
     (if length buf = 3
      then s\<lparr>printed := printed s @ info (SerToMidi (buf ! 0) (buf ! 1) (buf ! 2)),
             midi_sent := midi_sent s @ [buf]\<rparr>
      else s)"

text \<open>
  \<^verbatim>\<open>def process_midi_out(self, buf, ser)\<close>, lines 181-188, called as
  \<^verbatim>\<open>self.process_midi_out(msg[0], ser)\<close>. The arguments of \<^verbatim>\<open>info\<close> are evaluated before
  the call, so \<^verbatim>\<open>buf[1]\<close> or \<^verbatim>\<open>buf[2]\<close> raises \<^verbatim>\<open>IndexError\<close> on a message of fewer than
  three bytes before anything is printed; \<^verbatim>\<open>ser.write\<close> on \<^verbatim>\<open>None\<close> raises
  \<^verbatim>\<open>AttributeError\<close>. Every exception is handled by \<^verbatim>\<open>logException(e); self.stop()\<close>.
\<close>

definition process_midi_out :: "byte list \<Rightarrow> write_outcome \<Rightarrow> state \<Rightarrow> state" where
  "process_midi_out buf wo s =
     (if buf \<noteq> [] then
        (if length buf < 3
         then stop (s\<lparr>printed := printed s @ logException IndexError\<rparr>)
         else
           (let s1 = s\<lparr>printed := printed s @ info (MidiToSer (buf ! 0) (buf ! 1) (buf ! 2))\<rparr>
            in case ser s1 of
                 None \<Rightarrow> stop (s1\<lparr>printed := printed s1 @ logException AttributeError\<rparr>)
               | Some h \<Rightarrow>
                   (case wo of
                      WriteOk \<Rightarrow> s1\<lparr>ser_written := ser_written s1 @ [(h, buf)]\<rparr>
                    | WriteRaises e \<Rightarrow> stop (s1\<lparr>printed := printed s1 @ logException e\<rparr>))))
      else s)"

text \<open>
  One turn of the loop of \<^verbatim>\<open>worker\<close> in \<^verbatim>\<open>serial_set_callback\<close>, lines 61-68, for
  thread \<open>i\<close>. The \<^verbatim>\<open>except\<close> clause names \<^verbatim>\<open>OSError\<close>, \<^verbatim>\<open>serial.SerialException\<close> and
  \<^verbatim>\<open>TypeError\<close>; its body is \<^verbatim>\<open>break\<close>. The parameter \<^verbatim>\<open>on_exception\<close> occurs nowhere in
  the body of \<^verbatim>\<open>serial_set_callback\<close>. Another exception ends the thread with a
  traceback. \<^verbatim>\<open>midi_out.send_message\<close> is taken to return.
\<close>

fun reader_catches :: "exn \<Rightarrow> bool" where
  "reader_catches OSError = True"
| "reader_catches SerialException = True"
| "reader_catches TypeError = True"
| "reader_catches e = False"

definition worker :: "nat \<Rightarrow> read_outcome \<Rightarrow> state \<Rightarrow> state" where
  "worker i r s =
     (if i < length (workers s) \<and> fst (workers s ! i) = Running then
        (if snd (workers s ! i)
         then s\<lparr>workers := (workers s)[i := (Exited, True)]\<rparr>
         else
           (case r of
              ReadData data \<Rightarrow> (if data \<noteq> [] then process_serial_in data s else s)
            | ReadRaises e \<Rightarrow>
                (if reader_catches e
                 then s\<lparr>workers := (workers s)[i := (Exited, False)]\<rparr>
                 else s\<lparr>workers := (workers s)[i := (Died, False)],
                        printed := printed s @ [Traceback e]\<rparr>)))
      else s)"

text \<open>
  One step of \<^verbatim>\<open>async def run(self)\<close>, lines 93-167, from the place \<open>pc s\<close>. At
  \<open>PC_wait\<close> the thread is blocked in \<^verbatim>\<open>interrupt.wait()\<close> until the flag of the event is
  set. The virtual ports are taken to be created without an exception, and
  \<^verbatim>\<open>time.sleep\<close> and \<^verbatim>\<open>close\<close> to return.
\<close>

definition run_step :: "config \<Rightarrow> port list \<Rightarrow> open_outcome \<Rightarrow> state \<Rightarrow> state" where
  "run_step cfg ps oo s =
     (case pc s of
        PC_init \<Rightarrow>
          s\<lparr>printed := printed s @ info (MidiDeviceCreated (midi_name cfg)), pc := PC_loop\<rparr>
      | PC_loop \<Rightarrow>
          (if should_stop s then s\<lparr>pc := PC_close_ports\<rparr>
           else
             (let s1 = s\<lparr>device_path := manual_device cfg\<rparr>
              in if \<not> str_truthy (device_path s1) then s1\<lparr>pc := PC_discover\<rparr>
                 else s1\<lparr>printed := printed s1 @ info (UsingSerialDevice (device_path s1)),
                         pc := PC_open_check\<rparr>))
      | PC_discover \<Rightarrow>
          (let s1 = s\<lparr>discoveries := discoveries s + 1\<rparr>
           in case findDevices (eval_match cfg) (map inspect ps) of
                Inl u \<Rightarrow> s1\<lparr>pc := PC_crashed\<rparr>
              | Inr [] \<Rightarrow>
                  s1\<lparr>printed := printed s1 @ info NoSerialDevicesFound, pc := PC_sleep_nodev\<rparr>
              | Inr (d # ds) \<Rightarrow>
                  (let s2 = s1\<lparr>device_path := to_str (dotdict_getattr d ''device_path'')\<rparr>
                   in s2\<lparr>printed := printed s2 @ info (UsingSerialDevice (device_path s2)),
                         pc := PC_open_check\<rparr>))
      | PC_sleep_nodev \<Rightarrow>
          s\<lparr>sleeps := sleeps s @ [(SleepNoDevice, sleep_interval cfg)], pc := PC_loop\<rparr>
      | PC_open_check \<Rightarrow>
          (if should_stop s then s\<lparr>ser := None, pc := PC_loop\<rparr>
           else s\<lparr>pc := PC_open_try\<rparr>)
      | PC_open_try \<Rightarrow>
          (let s1 = s\<lparr>opens := opens s @ [(device_path s, oo = OpenOk)]\<rparr>
           in case oo of
                OpenOk \<Rightarrow>
                  s1\<lparr>handles := handles s1 @ [0], ser := Some (length (handles s1)),
                     pc := PC_install\<rparr>
              | OpenSerialException \<Rightarrow>
                  s1\<lparr>printed := printed s1 @ warn SerialOpenFailed, pc := PC_open_sleep\<rparr>
              | OpenOtherError \<Rightarrow> s1\<lparr>pc := PC_crashed\<rparr>)
      | PC_open_sleep \<Rightarrow>
          s\<lparr>sleeps := sleeps s @ [(SleepOpenRetry, sleep_interval cfg)], pc := PC_open_check\<rparr>
      | PC_install \<Rightarrow> s\<lparr>interrupt := Some False, pc := PC_set_cb\<rparr>
      | PC_set_cb \<Rightarrow> s\<lparr>callback := True, pc := PC_start_reader\<rparr>
      | PC_start_reader \<Rightarrow>
          s\<lparr>workers := workers s @ [(Running, False)],
            stop_serial := Some (length (workers s)), pc := PC_wait\<rparr>
      | PC_wait \<Rightarrow>
          (case interrupt s of
             Some True \<Rightarrow> s\<lparr>pc := PC_stop_serial\<rparr>
           | _ \<Rightarrow> s)
      | PC_stop_serial \<Rightarrow>
          (case stop_serial s of
             Some w \<Rightarrow>
               s\<lparr>workers := (workers s)[w := (fst (workers s ! w), True)], pc := PC_close_ser\<rparr>
           | None \<Rightarrow> s\<lparr>pc := PC_crashed\<rparr>)
      | PC_close_ser \<Rightarrow>
          (case ser s of
             Some h \<Rightarrow> s\<lparr>handles := (handles s)[h := handles s ! h + 1], pc := PC_sleep_conn\<rparr>
           | None \<Rightarrow> s\<lparr>pc := PC_crashed\<rparr>)
      | PC_sleep_conn \<Rightarrow>
          s\<lparr>sleeps := sleeps s @ [(SleepAfterClose, sleep_interval cfg)], pc := PC_loop\<rparr>
      | PC_close_ports \<Rightarrow>
          s\<lparr>midi_in_closed := midi_in_closed s + 1, midi_out_closed := midi_out_closed s + 1,
            printed := printed s @ info ExitedCleanly, pc := PC_stopped\<rparr>
      | PC_stopped \<Rightarrow> s
      | PC_crashed \<Rightarrow> s)"

text \<open>
  One event, and a sequence of events from a state. The callback of the virtual input is
  \<^verbatim>\<open>lambda msg, t: self.process_midi_out(msg[0], ser)\<close>; without a callback a message
  is not handed to the bridge.
\<close>

definition step :: "config \<Rightarrow> event \<Rightarrow> state \<Rightarrow> state" where
  "step cfg ev s =
     (case ev of
        Main ps oo \<Rightarrow> run_step cfg ps oo s
      | Stop \<Rightarrow> stop s
      | MidiIn msg wo \<Rightarrow> (if callback s then process_midi_out msg wo s else s)
      | Reader i r \<Rightarrow> worker i r s)"

fun steps :: "config \<Rightarrow> event list \<Rightarrow> state \<Rightarrow> state" where
  "steps cfg [] s = s"
| "steps cfg (ev # evs) s = steps cfg evs (step cfg ev s)"

definition exec :: "config \<Rightarrow> event list \<Rightarrow> state" where
  "exec cfg tr = steps cfg tr init"


section \<open>Reachable states, a measure, and example runs\<close>

subsection \<open>The shape of the reachable states\<close>

text \<open>
  Four shapes of the connection: no device was opened yet; the device is open and the
  pipeline is being set up; the pipeline runs; the device was closed again.
\<close>

definition conn_fresh :: "state \<Rightarrow> bool" where
  "conn_fresh s = (\<not> callback s \<and> interrupt s = None \<and> handles s = [] \<and> workers s = [])"

definition conn_opened :: "state \<Rightarrow> bool" where
  "conn_opened s = (handles s = [0] \<and> ser s = Some 0 \<and> workers s = [])"

definition conn_active :: "state \<Rightarrow> bool" where
  "conn_active s = (callback s \<and> interrupt s \<noteq> None \<and> handles s = [0] \<and> ser s = Some 0 \<and>
     length (workers s) = 1 \<and> stop_serial s = Some 0)"

definition conn_closed :: "state \<Rightarrow> bool" where
  "conn_closed s = (callback s \<and> interrupt s = Some True \<and> should_stop s \<and>
     handles s = [1] \<and> ser s = Some 0 \<and> length (workers s) = 1)"

text \<open>
  What holds in every state an execution reaches: the flag of the event is only ever set
  by \<open>stop\<close>, the virtual ports are closed exactly when \<^verbatim>\<open>run\<close> has returned, and each
  place of \<^verbatim>\<open>run\<close> has one of the shapes above.
\<close>

definition bridge_inv :: "state \<Rightarrow> bool" where
  "bridge_inv s =
     ((interrupt s = Some True \<longrightarrow> should_stop s) \<and>
      midi_in_closed s = (if pc s = PC_stopped then 1 else 0) \<and>
      midi_out_closed s = (if pc s = PC_stopped then 1 else 0) \<and>
      (case pc s of
         PC_init \<Rightarrow> conn_fresh s
       | PC_loop \<Rightarrow> conn_fresh s \<or> conn_closed s
       | PC_discover \<Rightarrow> conn_fresh s
       | PC_sleep_nodev \<Rightarrow> conn_fresh s
       | PC_open_check \<Rightarrow> conn_fresh s
       | PC_open_try \<Rightarrow> conn_fresh s
       | PC_open_sleep \<Rightarrow> conn_fresh s
       | PC_install \<Rightarrow> conn_opened s \<and> \<not> callback s \<and> interrupt s = None
       | PC_set_cb \<Rightarrow> conn_opened s \<and> \<not> callback s \<and> interrupt s \<noteq> None
       | PC_start_reader \<Rightarrow> conn_opened s \<and> callback s \<and> interrupt s \<noteq> None
       | PC_wait \<Rightarrow> conn_active s
       | PC_stop_serial \<Rightarrow> conn_active s \<and> interrupt s = Some True
       | PC_close_ser \<Rightarrow> conn_active s \<and> interrupt s = Some True
       | PC_sleep_conn \<Rightarrow> conn_closed s
       | PC_close_ports \<Rightarrow> should_stop s \<and> (conn_fresh s \<or> conn_closed s)
       | PC_stopped \<Rightarrow> should_stop s \<and> (conn_fresh s \<or> conn_closed s)
       | PC_crashed \<Rightarrow> conn_fresh s))"

text \<open>
  A state in which the pipeline was set up and \<open>stop\<close> has set both the flag
  \<^verbatim>\<open>should_stop\<close> and the event.
\<close>

definition stopping :: "state \<Rightarrow> bool" where
  "stopping s = (bridge_inv s \<and> callback s \<and> should_stop s \<and> interrupt s = Some True)"

subsection \<open>Measures\<close>

text \<open>The number of steps of the thread of \<^verbatim>\<open>run\<close> in a sequence of events.\<close>

fun main_count :: "event list \<Rightarrow> nat" where
  "main_count [] = 0"
| "main_count (Main ps oo # evs) = Suc (main_count evs)"
| "main_count (ev # evs) = main_count evs"

text \<open>
  The number of steps \<^verbatim>\<open>run\<close> still takes from a place until it has returned, once the
  event and the flag are set.
\<close>

fun rank :: "pc \<Rightarrow> nat" where
  "rank PC_start_reader = 7"
| "rank PC_wait = 6"
| "rank PC_stop_serial = 5"
| "rank PC_close_ser = 4"
| "rank PC_sleep_conn = 3"
| "rank PC_loop = 2"
| "rank PC_close_ports = 1"
| "rank p = 0"

text \<open>
  The sleeps of the retry loop of \<^verbatim>\<open>open_serial\<close> (line 135) among the sleeps performed,
  and how many of them, and how many calls of \<^verbatim>\<open>serial.Serial\<close>, the loop has yet to
  perform before it tests \<^verbatim>\<open>should_stop\<close> again.
\<close>

definition retry_sleeps :: "state \<Rightarrow> (sleep_site \<times> rat) list" where
  "retry_sleeps s = filter (\<lambda>x. fst x = SleepOpenRetry) (sleeps s)"

definition pending_sleeps :: "state \<Rightarrow> nat" where
  "pending_sleeps s = (if pc s = PC_open_try \<or> pc s = PC_open_sleep then 1 else 0)"

definition pending_opens :: "state \<Rightarrow> nat" where
  "pending_opens s = (if pc s = PC_open_try then 1 else 0)"

subsection \<open>Example configurations and runs\<close>

text \<open>A configuration with a manual device, and the steps of \<^verbatim>\<open>run\<close> used below.\<close>

definition cfg0 :: config where
  "cfg0 = \<lparr>name = ''Serial2MIDI'', baud_rate = 115200, sleep_interval = 3 / 10,
     eval_match = None, manual_device = Some ''/dev/ttyUSB0'', midi_suffix = None,
     forced_midi_name = None\<rparr>"

definition main_ok :: event where
  "main_ok = Main [] OpenOk"

definition main_fail :: event where
  "main_fail = Main [] OpenSerialException"

text \<open>
  Seven steps of \<^verbatim>\<open>run\<close> with a device that opens at once: the bridge then waits in
  \<^verbatim>\<open>interrupt.wait()\<close>.
\<close>

definition connect :: "event list" where
  "connect = [main_ok, main_ok, main_ok, main_ok, main_ok, main_ok, main_ok]"

text \<open>
  The same run with a call of \<open>stop\<close> after \<^verbatim>\<open>open_serial\<close> has tested \<^verbatim>\<open>should_stop\<close>
  at line 125 and before line 143 stores the new event (during the call of
  \<^verbatim>\<open>serial.Serial\<close>, say).
\<close>

definition late_stop :: "event list" where
  "late_stop = [main_ok, main_ok, main_ok, Stop, main_ok, main_ok, main_ok, main_ok]"

text \<open>The device fails to open twice and opens at the third attempt.\<close>

definition open_third_time :: "event list" where
  "open_third_time =
     [main_ok, main_ok, main_ok, main_fail, main_ok, main_ok, main_fail, main_ok, main_ok,
      main_ok]"

text \<open>
  A stop request that arrives while the first attempt to open the device is under way:
  \<^verbatim>\<open>open_serial\<close> has tested \<^verbatim>\<open>should_stop\<close> and the call of \<^verbatim>\<open>serial.Serial\<close> has
  not returned yet.
\<close>

definition stop_during_open :: "event list" where
  "stop_during_open = [main_ok, main_ok, main_ok, Stop]"






subsection \<open>A run with a manual device\<close>



section \<open>Properties\<close>

subsection \<open>Evaluation and sequences of events\<close>

lemmas run_defs = exec_def init_def step_def run_step_def worker_def stop_def
  process_midi_out_def process_serial_in_def str_truthy_def info_def warn_def error_def
  logger_def LOG_LEVELS_def logException_def midi_name_def Let_def

lemmas example_defs = cfg0_def main_ok_def main_fail_def connect_def late_stop_def
  open_third_time_def stop_during_open_def

lemmas shape_defs = conn_fresh_def conn_active_def conn_closed_def conn_opened_def

lemma steps_append: "steps cfg (a @ b) s = steps cfg b (steps cfg a s)"
  by (induction a arbitrary: s) simp_all

lemma exec_append: "exec cfg (a @ b) = steps cfg b (exec cfg a)"
  by (simp add: exec_def steps_append)

lemma connect_state:
  "exec cfg0 connect =
     \<lparr>should_stop = False, interrupt = Some False, pc = PC_wait,
      device_path = Some ''/dev/ttyUSB0'', ser = Some 0, stop_serial = Some 0,
      handles = [0], workers = [(Running, False)], callback = True,
      midi_in_closed = 0, midi_out_closed = 0, midi_sent = [], ser_written = [],
      printed = [Line INFO (MidiDeviceCreated ''Serial2MIDI''),
                 Line INFO (UsingSerialDevice (Some ''/dev/ttyUSB0''))],
      sleeps = [], discoveries = 0, opens = [(Some ''/dev/ttyUSB0'', True)]\<rparr>"
  by (simp add: run_defs example_defs)

lemma late_stop_state:
  "exec cfg0 late_stop =
     \<lparr>should_stop = True, interrupt = Some False, pc = PC_wait,
      device_path = Some ''/dev/ttyUSB0'', ser = Some 0, stop_serial = Some 0,
      handles = [0], workers = [(Running, False)], callback = True,
      midi_in_closed = 0, midi_out_closed = 0, midi_sent = [], ser_written = [],
      printed = [Line INFO (MidiDeviceCreated ''Serial2MIDI''),
                 Line INFO (UsingSerialDevice (Some ''/dev/ttyUSB0''))],
      sleeps = [], discoveries = 0, opens = [(Some ''/dev/ttyUSB0'', True)]\<rparr>"
  by (simp add: run_defs example_defs)

subsection \<open>The supervisor blocked in its wait\<close>

text \<open>
  While the flag of the event is not set, \<^verbatim>\<open>interrupt.wait()\<close> does not return: steps of
  \<^verbatim>\<open>run\<close> change nothing.
\<close>

lemma blocked_in_wait:
  "pc s = PC_wait \<Longrightarrow> interrupt s = Some False \<Longrightarrow> steps cfg (replicate n (Main ps oo)) s = s"
  by (induction n) (simp_all add: step_def run_step_def)

text \<open>
  No turn of a reader thread, whatever its read does, touches the event, the stop flag,
  the place of \<^verbatim>\<open>run\<close> or a handle.
\<close>

lemma worker_frame:
  "interrupt (worker i r s) = interrupt s \<and> should_stop (worker i r s) = should_stop s \<and>
   pc (worker i r s) = pc s \<and> handles (worker i r s) = handles s"
  by (simp add: worker_def process_serial_in_def split: read_outcome.splits)

text \<open>
  C1. The claim: when the read of the reader loop raises an I/O error, the loop ends and
  the supervisor waiting for the termination signal is woken, so that the connection is
  torn down and the reconnect cycle runs. The code: the loop ends, and nothing else
  happens. In the run below the bridge is connected and waiting, the first read of reader
  thread 0 raises \<^verbatim>\<open>OSError\<close>, and \<^verbatim>\<open>run\<close> is then given any number \<open>n\<close> of steps: the
  thread has exited, the event is not set, \<^verbatim>\<open>run\<close> is still in \<^verbatim>\<open>interrupt.wait()\<close>, the
  handle was not closed and no sleep of a reconnect cycle was performed.
\<close>

theorem C1_read_error_does_not_wake_supervisor:
  "pc (exec cfg0 (connect @ [Reader 0 (ReadRaises OSError)] @ replicate n main_ok)) = PC_wait \<and>
   workers (exec cfg0 (connect @ [Reader 0 (ReadRaises OSError)] @ replicate n main_ok))
     = [(Exited, False)] \<and>
   interrupt (exec cfg0 (connect @ [Reader 0 (ReadRaises OSError)] @ replicate n main_ok))
     = Some False \<and>
   handles (exec cfg0 (connect @ [Reader 0 (ReadRaises OSError)] @ replicate n main_ok)) = [0] \<and>
   sleeps (exec cfg0 (connect @ [Reader 0 (ReadRaises OSError)] @ replicate n main_ok)) = []"
proof -
  let ?s = "steps cfg0 [Reader 0 (ReadRaises OSError)] (exec cfg0 connect)"
  have s: "pc ?s = PC_wait \<and> workers ?s = [(Exited, False)] \<and> interrupt ?s = Some False \<and>
      handles ?s = [0] \<and> sleeps ?s = []"
    by (simp add: connect_state step_def worker_def)
  then have "steps cfg0 (replicate n main_ok) ?s = ?s"
    unfolding main_ok_def by (simp add: blocked_in_wait)
  then show ?thesis
    using s by (simp add: exec_append)
qed

text \<open>
  C5. The claim: \<open>stop\<close>, invoked any number of times and from any state, makes the run
  loop exit and reach Stopped. The code: a call of \<open>stop\<close> that falls between the test of
  \<^verbatim>\<open>should_stop\<close> in \<^verbatim>\<open>open_serial\<close> (line 125) and the assignment of
  \<^verbatim>\<open>self._interrupt\<close> (line 143) sets the flag and finds no event to set; \<^verbatim>\<open>run\<close> then
  creates the event and waits for it without testing the flag again. In the run
  \<open>late_stop\<close>, followed by any number \<open>n\<close> of steps of \<^verbatim>\<open>run\<close>, the flag is set and
  \<^verbatim>\<open>run\<close> stays in \<^verbatim>\<open>interrupt.wait()\<close> with the ports and the handle open; a second
  call of \<open>stop\<close> then does lead to Stopped, so one call and two calls differ.
\<close>

theorem C5_stop_before_install_is_lost:
  "pc (exec cfg0 (late_stop @ replicate n main_ok)) = PC_wait \<and>
   should_stop (exec cfg0 (late_stop @ replicate n main_ok)) \<and>
   midi_in_closed (exec cfg0 (late_stop @ replicate n main_ok)) = 0 \<and>
   midi_out_closed (exec cfg0 (late_stop @ replicate n main_ok)) = 0 \<and>
   handles (exec cfg0 (late_stop @ replicate n main_ok)) = [0] \<and>
   pc (exec cfg0 (late_stop @ replicate n main_ok @
         [Stop, main_ok, main_ok, main_ok, main_ok, main_ok, main_ok])) = PC_stopped"
proof -
  have blocked: "steps cfg0 (replicate n main_ok) (exec cfg0 late_stop) = exec cfg0 late_stop"
    unfolding main_ok_def by (simp add: blocked_in_wait late_stop_state)
  have "pc (steps cfg0 [Stop, main_ok, main_ok, main_ok, main_ok, main_ok, main_ok]
          (exec cfg0 late_stop)) = PC_stopped"
    by (simp add: late_stop_state step_def run_step_def stop_def main_ok_def info_def
          logger_def LOG_LEVELS_def)
  then show ?thesis
    using blocked by (simp add: exec_append steps_append late_stop_state)
qed

subsection \<open>Every reachable state satisfies the invariant\<close>

lemma inv_init: "bridge_inv init"
  by (simp add: bridge_inv_def init_def shape_defs)

lemma inv_stop: "bridge_inv s \<Longrightarrow> bridge_inv (stop s)"
  by (cases "pc s") (auto simp: bridge_inv_def stop_def shape_defs split: option.splits)

lemma inv_printed [simp]: "bridge_inv (s\<lparr>printed := p\<rparr>) = bridge_inv s"
  by (cases "pc s") (auto simp: bridge_inv_def shape_defs)

lemma inv_ser_written [simp]: "bridge_inv (s\<lparr>ser_written := w\<rparr>) = bridge_inv s"
  by (cases "pc s") (auto simp: bridge_inv_def shape_defs)

lemma inv_process_midi_out: "bridge_inv s \<Longrightarrow> bridge_inv (process_midi_out msg wo s)"
  by (auto simp: process_midi_out_def Let_def inv_stop split: option.splits write_outcome.splits)

lemma inv_worker: "bridge_inv s \<Longrightarrow> bridge_inv (worker i r s)"
  by (cases "pc s")
    (auto simp: bridge_inv_def worker_def process_serial_in_def shape_defs
       split: read_outcome.splits)

lemma inv_run_step: "bridge_inv s \<Longrightarrow> bridge_inv (run_step cfg ps oo s)"
  by (cases "pc s")
    (auto simp: bridge_inv_def run_step_def shape_defs Let_def
       split: option.splits bool.splits sum.splits list.splits open_outcome.splits)

lemma inv_step: "bridge_inv s \<Longrightarrow> bridge_inv (step cfg ev s)"
  by (cases ev) (simp_all add: step_def inv_stop inv_process_midi_out inv_worker inv_run_step)

lemma inv_steps: "bridge_inv s \<Longrightarrow> bridge_inv (steps cfg tr s)"
  by (induction tr arbitrary: s) (simp_all add: inv_step)

lemma inv_exec: "bridge_inv (exec cfg tr)"
  by (simp add: exec_def inv_steps inv_init)

text \<open>
  Once the callback of the virtual input is registered, the event of the connection is
  stored in \<^verbatim>\<open>self._interrupt\<close> and the variable \<^verbatim>\<open>ser\<close> holds the one handle opened.
\<close>

lemma callback_shape:
  "bridge_inv s \<Longrightarrow> callback s \<Longrightarrow> interrupt s \<noteq> None \<and> ser s = Some 0"
  by (cases "pc s") (auto simp: bridge_inv_def shape_defs)

text \<open>
  No serial handle is closed twice and no second one is opened; the virtual ports are
  closed at most once.
\<close>

lemma closes_at_most_once:
  "handles (exec cfg tr) \<in> {[], [0], [1]} \<and> midi_in_closed (exec cfg tr) \<le> 1 \<and>
   midi_out_closed (exec cfg tr) \<le> 1"
  using inv_exec [of cfg tr]
  by (cases "pc (exec cfg tr)") (auto simp: bridge_inv_def shape_defs)

subsection \<open>The stop operation\<close>

lemma stop_idempotent: "stop (stop s) = stop s"
  by (cases "interrupt s") (simp_all add: stop_def Let_def)

lemma stop_effect:
  "should_stop (stop s) \<and> ser_written (stop s) = ser_written s \<and> printed (stop s) = printed s \<and>
   pc (stop s) = pc s \<and> handles (stop s) = handles s"
  by (cases "interrupt s") (simp_all add: stop_def Let_def)

lemma callback_step: "callback s \<Longrightarrow> callback (step cfg ev s)"
  by (cases ev; cases "pc s")
    (auto simp: step_def run_step_def stop_def process_midi_out_def worker_def
       process_serial_in_def Let_def
       split: option.splits bool.splits sum.splits list.splits open_outcome.splits
         write_outcome.splits read_outcome.splits)

lemma should_stop_step: "should_stop s \<Longrightarrow> should_stop (step cfg ev s)"
  by (cases ev; cases "pc s")
    (auto simp: step_def run_step_def stop_def process_midi_out_def worker_def
       process_serial_in_def Let_def
       split: option.splits bool.splits sum.splits list.splits open_outcome.splits
         write_outcome.splits read_outcome.splits)

lemma should_stop_steps: "should_stop s \<Longrightarrow> should_stop (steps cfg tr s)"
  by (induction tr arbitrary: s) (simp_all add: should_stop_step)

lemma stopped_step: "pc s = PC_stopped \<Longrightarrow> pc (step cfg ev s) = PC_stopped"
  by (cases ev)
    (auto simp: step_def run_step_def stop_def process_midi_out_def worker_def
       process_serial_in_def Let_def
       split: option.splits write_outcome.splits read_outcome.splits)

lemma stopped_steps: "pc s = PC_stopped \<Longrightarrow> pc (steps cfg tr s) = PC_stopped"
  by (induction tr arbitrary: s) (simp_all add: stopped_step)

lemma interrupt_set_step:
  "interrupt s = Some True \<Longrightarrow> pc s \<noteq> PC_install \<Longrightarrow> interrupt (step cfg ev s) = Some True"
  by (cases ev; cases "pc s")
    (auto simp: step_def run_step_def stop_def process_midi_out_def worker_def
       process_serial_in_def Let_def
       split: option.splits bool.splits sum.splits list.splits open_outcome.splits
         write_outcome.splits read_outcome.splits)

subsection \<open>From a stop with the pipeline set up to Stopped\<close>

lemma stopping_stop: "bridge_inv s \<Longrightarrow> callback s \<Longrightarrow> stopping (stop s)"
  using callback_shape [of s] inv_stop [of s]
  by (auto simp: stopping_def stop_def split: option.splits)

lemma stopping_pc: "stopping s \<Longrightarrow> pc s \<noteq> PC_install"
  by (auto simp: stopping_def bridge_inv_def shape_defs)

lemma stopping_step: "stopping s \<Longrightarrow> stopping (step cfg ev s)"
  using stopping_pc [of s]
  by (simp add: stopping_def inv_step callback_step should_stop_step interrupt_set_step)

lemma stopping_steps: "stopping s \<Longrightarrow> stopping (steps cfg tr s)"
  by (induction tr arbitrary: s) (simp_all add: stopping_step)

lemma rank_other: "stopping s \<Longrightarrow> rank (pc (step cfg ev s)) \<le> rank (pc s)"
  by (cases ev; cases "pc s")
    (auto simp: stopping_def bridge_inv_def shape_defs step_def run_step_def stop_def
       process_midi_out_def worker_def process_serial_in_def Let_def
       split: option.splits bool.splits write_outcome.splits read_outcome.splits)

lemma rank_main: "stopping s \<Longrightarrow> rank (pc (step cfg (Main ps oo) s)) \<le> rank (pc s) - 1"
  by (cases "pc s")
    (auto simp: stopping_def bridge_inv_def shape_defs step_def run_step_def Let_def)

lemma rank_steps:
  "stopping s \<Longrightarrow> rank (pc (steps cfg tr s)) \<le> rank (pc s) - main_count tr"
proof (induction tr arbitrary: s)
  case Nil
  then show ?case by simp
next
  case (Cons ev tr)
  have st: "stopping (step cfg ev s)"
    using Cons.prems by (rule stopping_step)
  have "rank (pc (steps cfg tr (step cfg ev s))) \<le> rank (pc (step cfg ev s)) - main_count tr"
    using st by (rule Cons.IH)
  moreover have "rank (pc (step cfg ev s)) - main_count tr \<le> rank (pc s) - main_count (ev # tr)"
  proof (cases ev)
    case (Main ps oo)
    then show ?thesis using rank_main [OF Cons.prems, of cfg ps oo] by simp
  next
    case Stop
    then show ?thesis using rank_other [OF Cons.prems, of cfg ev] by simp
  next
    case (MidiIn m wo)
    then show ?thesis using rank_other [OF Cons.prems, of cfg ev] by simp
  next
    case (Reader i r)
    then show ?thesis using rank_other [OF Cons.prems, of cfg ev] by simp
  qed
  ultimately show ?case by simp
qed

lemma rank_bound: "rank p \<le> 7"
  by (cases p) simp_all

lemma stopping_rank0:
  "stopping s \<Longrightarrow> rank (pc s) = 0 \<Longrightarrow>
     pc s = PC_stopped \<and> handles s = [1] \<and> midi_in_closed s = 1 \<and> midi_out_closed s = 1"
  by (cases "pc s") (auto simp: stopping_def bridge_inv_def shape_defs)

text \<open>
  From a state in which the pipeline is set up and \<open>stop\<close> has run, seven steps of
  \<^verbatim>\<open>run\<close>, interleaved with any other events, end in Stopped with the handle and both
  virtual ports closed once.
\<close>

lemma stopping_reaches_stopped:
  assumes "stopping s" and "7 \<le> main_count tr"
  shows "pc (steps cfg tr s) = PC_stopped \<and> handles (steps cfg tr s) = [1] \<and>
         midi_in_closed (steps cfg tr s) = 1 \<and> midi_out_closed (steps cfg tr s) = 1"
proof -
  have "rank (pc (steps cfg tr s)) \<le> rank (pc s) - main_count tr"
    using assms(1) by (rule rank_steps)
  moreover have "rank (pc s) \<le> 7" by (rule rank_bound)
  ultimately have "rank (pc (steps cfg tr s)) = 0" using assms(2) by simp
  with stopping_steps [OF assms(1), of cfg tr] show ?thesis by (rule stopping_rank0)
qed

subsection \<open>The inbound path\<close>

lemma worker_read_data:
  assumes "i < length (workers s)" and "workers s ! i = (Running, False)"
  shows "worker i (ReadData b) s = process_serial_in (if length b = 3 then b else []) s"
  using assms by (auto simp: worker_def process_serial_in_def)

text \<open>
  C2. Let reader thread \<open>i\<close> run, its \<^verbatim>\<open>stop_event\<close> not set, and let its reads deliver the
  byte sequences \<open>bufs\<close> one after the other. Then the messages given to the virtual output
  are exactly the sequences of length 3 among them, each unchanged and in the order of
  arrival; one INFO line is printed for each of them and nothing for the others; and the
  thread still runs afterwards: a sequence of another length raised nothing.
\<close>

theorem C2_inbound_forwards_three_byte_reads:
  assumes "i < length (workers s)" and "workers s ! i = (Running, False)"
  shows "midi_sent (steps cfg (map (\<lambda>b. Reader i (ReadData b)) bufs) s)
           = midi_sent s @ filter (\<lambda>b. length b = 3) bufs \<and>
         printed (steps cfg (map (\<lambda>b. Reader i (ReadData b)) bufs) s)
           = printed s @ map (\<lambda>b. Line INFO (SerToMidi (b ! 0) (b ! 1) (b ! 2)))
                           (filter (\<lambda>b. length b = 3) bufs) \<and>
         workers (steps cfg (map (\<lambda>b. Reader i (ReadData b)) bufs) s) = workers s"
  using assms
proof (induction bufs arbitrary: s)
  case Nil
  then show ?case by simp
next
  case (Cons b bufs)
  let ?s1 = "step cfg (Reader i (ReadData b)) s"
  have s1: "?s1 = process_serial_in (if length b = 3 then b else []) s"
    using Cons.prems by (simp add: step_def worker_read_data)
  then have w: "workers ?s1 = workers s"
    by (simp add: process_serial_in_def)
  have "i < length (workers ?s1)" and "workers ?s1 ! i = (Running, False)"
    using w Cons.prems by simp_all
  from Cons.IH [OF this] show ?case
    using s1 w by (simp add: process_serial_in_def info_def logger_def LOG_LEVELS_def)
qed

text \<open>
  Five reads of the connected bridge: a note-on, one byte, a timeout, a note-off and two
  bytes. The note-on and the note-off are forwarded, in this order.
\<close>

theorem C2_inbound_forwards_three_byte_reads_witness:
  "0 < length (workers (exec cfg0 connect)) \<and>
   workers (exec cfg0 connect) ! 0 = (Running, False) \<and>
   midi_sent (steps cfg0 (map (\<lambda>b. Reader 0 (ReadData b))
       [[0x90, 0x3C, 0x40], [0x80], [], [0x80, 0x3C, 0x00], [0xB0, 0x07]]) (exec cfg0 connect))
     = [[0x90, 0x3C, 0x40], [0x80, 0x3C, 0x00]]"
proof -
  have h1: "0 < length (workers (exec cfg0 connect))" by (simp add: connect_state)
  have h2: "workers (exec cfg0 connect) ! 0 = (Running, False)" by (simp add: connect_state)
  show ?thesis
    using C2_inbound_forwards_three_byte_reads [of 0 "exec cfg0 connect" cfg0
        "[[0x90, 0x3C, 0x40], [0x80], [], [0x80, 0x3C, 0x00], [0xB0, 0x07]]", OF h1 h2] h1 h2
    by (simp add: connect_state)
qed

subsection \<open>The outbound path\<close>

lemma midi_write_error_step:
  assumes "bridge_inv s" and "callback s" and "3 \<le> length msg"
  shows "step cfg (MidiIn msg (WriteRaises e)) s =
           stop (s\<lparr>printed := printed s @
              [Line INFO (MidiToSer (msg ! 0) (msg ! 1) (msg ! 2)), Traceback e]\<rparr>)"
  using callback_shape [OF assms(1,2)] assms(2,3)
  by (auto simp: step_def process_midi_out_def Let_def info_def error_def logger_def
        LOG_LEVELS_def logException_def)

lemma midi_short_step:
  assumes "callback s" and "length msg = 1 \<or> length msg = 2"
  shows "step cfg (MidiIn msg wo) s = stop (s\<lparr>printed := printed s @ [Traceback IndexError]\<rparr>)"
  using assms
  by (auto simp: step_def process_midi_out_def error_def logger_def LOG_LEVELS_def
        logException_def)

text \<open>
  C3. Take any state an execution reaches in which the callback of the virtual input is
  registered, and a message (of at least three bytes, so that the write is attempted)
  whose write raises the exception \<open>e\<close>. The callback prints the traceback of \<open>e\<close> and
  calls \<open>stop\<close>: the state after it is \<open>stop\<close> applied to the state with the two lines
  printed, \<^verbatim>\<open>should_stop\<close> is set and nothing was written. After that, whatever else
  happens, once \<^verbatim>\<open>run\<close> has taken seven steps it has returned (Stopped, not a new
  connection), the one serial handle has been closed exactly once and each virtual port
  exactly once.
\<close>

theorem C3_write_error_stops_bridge:
  assumes "callback (exec cfg tr)" and "3 \<le> length msg" and "7 \<le> main_count tr'"
  shows "step cfg (MidiIn msg (WriteRaises e)) (exec cfg tr) =
           stop ((exec cfg tr)\<lparr>printed := printed (exec cfg tr) @
              [Line INFO (MidiToSer (msg ! 0) (msg ! 1) (msg ! 2)), Traceback e]\<rparr>) \<and>
         should_stop (step cfg (MidiIn msg (WriteRaises e)) (exec cfg tr)) \<and>
         ser_written (step cfg (MidiIn msg (WriteRaises e)) (exec cfg tr))
           = ser_written (exec cfg tr) \<and>
         pc (exec cfg (tr @ [MidiIn msg (WriteRaises e)] @ tr')) = PC_stopped \<and>
         handles (exec cfg (tr @ [MidiIn msg (WriteRaises e)] @ tr')) = [1] \<and>
         midi_in_closed (exec cfg (tr @ [MidiIn msg (WriteRaises e)] @ tr')) = 1 \<and>
         midi_out_closed (exec cfg (tr @ [MidiIn msg (WriteRaises e)] @ tr')) = 1"
proof -
  let ?s = "exec cfg tr"
  let ?t = "?s\<lparr>printed := printed ?s @
      [Line INFO (MidiToSer (msg ! 0) (msg ! 1) (msg ! 2)), Traceback e]\<rparr>"
  have inv: "bridge_inv ?s" by (rule inv_exec)
  have eq: "step cfg (MidiIn msg (WriteRaises e)) ?s = stop ?t"
    using inv assms(1,2) by (rule midi_write_error_step)
  have "stopping (stop ?t)"
    using inv assms(1) by (intro stopping_stop) simp_all
  then have fin: "pc (steps cfg tr' (stop ?t)) = PC_stopped \<and>
      handles (steps cfg tr' (stop ?t)) = [1] \<and>
      midi_in_closed (steps cfg tr' (stop ?t)) = 1 \<and>
      midi_out_closed (steps cfg tr' (stop ?t)) = 1"
    using assms(3) by (rule stopping_reaches_stopped)
  have run: "exec cfg (tr @ [MidiIn msg (WriteRaises e)] @ tr') = steps cfg tr' (stop ?t)"
    using eq by (simp add: exec_append steps_append)
  show ?thesis
    using eq fin stop_effect [of ?t] unfolding run by simp
qed

text \<open>
  The connected bridge receives a note-on whose write raises \<^verbatim>\<open>OSError\<close>; seven steps
  of \<^verbatim>\<open>run\<close> later the bridge is stopped and the handle closed once.
\<close>

theorem C3_write_error_stops_bridge_witness:
  "callback (exec cfg0 connect) \<and>
   should_stop (step cfg0 (MidiIn [0x90, 0x3C, 0x40] (WriteRaises OSError)) (exec cfg0 connect)) \<and>
   pc (exec cfg0 (connect @ [MidiIn [0x90, 0x3C, 0x40] (WriteRaises OSError)] @
        [main_ok, main_ok, main_ok, main_ok, main_ok, main_ok, main_ok])) = PC_stopped \<and>
   handles (exec cfg0 (connect @ [MidiIn [0x90, 0x3C, 0x40] (WriteRaises OSError)] @
        [main_ok, main_ok, main_ok, main_ok, main_ok, main_ok, main_ok])) = [1]"
proof -
  have h1: "callback (exec cfg0 connect)" by (simp add: connect_state)
  have h2: "3 \<le> length [0x90, 0x3C, 0x40 :: byte]" by simp
  have h3: "7 \<le> main_count [main_ok, main_ok, main_ok, main_ok, main_ok, main_ok, main_ok]"
    by (simp add: main_ok_def)
  show ?thesis
    using C3_write_error_stops_bridge [OF h1 h2 h3, of OSError] h1
    by (simp add: connect_state stop_def Let_def)
qed

text \<open>
  C4, as the claim states it: the callback writes exactly the first three bytes of every
  non-empty message. It does not. The six bytes of a universal system exclusive identity
  request are written whole, which is not their first three bytes; of the two bytes of a
  program change nothing is written.
\<close>

theorem C4_first_three_bytes_counterexample:
  "ser_written (exec cfg0 (connect @ [MidiIn [0xF0, 0x7E, 0x7F, 0x06, 0x01, 0xF7] WriteOk]))
     = [(0, [0xF0, 0x7E, 0x7F, 0x06, 0x01, 0xF7])] \<and>
   ser_written (exec cfg0 (connect @ [MidiIn [0xF0, 0x7E, 0x7F, 0x06, 0x01, 0xF7] WriteOk]))
     \<noteq> [(0, take 3 [0xF0, 0x7E, 0x7F, 0x06, 0x01, 0xF7])] \<and>
   ser_written (exec cfg0 (connect @ [MidiIn [0xC0, 0x05] WriteOk])) = []"
  by (simp add: exec_append connect_state step_def process_midi_out_def stop_def Let_def)

text \<open>
  C4, amended. For every message of at least three bytes that arrives on the virtual input
  port in a state an execution reaches with the callback registered, the callback passes
  the whole message, unchanged and uncut, to one write on the serial handle (exactly the
  three bytes of a three-byte message, all the bytes of a longer one), when the write
  returns; the INFO line shows the first three bytes, and the stop flag is left as it was.
\<close>

theorem C4_outbound_writes_whole_message:
  assumes "callback (exec cfg tr)" and "3 \<le> length msg"
  shows "ser_written (step cfg (MidiIn msg WriteOk) (exec cfg tr))
           = ser_written (exec cfg tr) @ [(0, msg)] \<and>
         printed (step cfg (MidiIn msg WriteOk) (exec cfg tr))
           = printed (exec cfg tr) @ [Line INFO (MidiToSer (msg ! 0) (msg ! 1) (msg ! 2))] \<and>
         should_stop (step cfg (MidiIn msg WriteOk) (exec cfg tr)) = should_stop (exec cfg tr)"
  using callback_shape [OF inv_exec assms(1)] assms
  by (auto simp: step_def process_midi_out_def Let_def info_def logger_def LOG_LEVELS_def)

theorem C4_outbound_writes_whole_message_witness:
  "callback (exec cfg0 connect) \<and>
   ser_written (step cfg0 (MidiIn [0x90, 0x3C, 0x40] WriteOk) (exec cfg0 connect))
     = [(0, [0x90, 0x3C, 0x40])]"
proof -
  have h1: "callback (exec cfg0 connect)" by (simp add: connect_state)
  have h2: "3 \<le> length [0x90, 0x3C, 0x40 :: byte]" by simp
  show ?thesis
    using C4_outbound_writes_whole_message [OF h1 h2] h1
    by (simp add: connect_state)
qed

text \<open>
  C10. Take any state an execution reaches in which the callback of the virtual input is
  registered, and a message of one or two bytes. Whatever a write would do, none is
  made: the \<^verbatim>\<open>IndexError\<close> of the logging expression is handled by the callback, which
  prints its traceback and calls \<open>stop\<close>. Nothing is written, \<^verbatim>\<open>should_stop\<close> is set, and
  once \<^verbatim>\<open>run\<close> has taken seven steps the whole bridge is stopped, with the handle and
  both virtual ports closed once.
\<close>

theorem C10_short_message_stops_bridge:
  assumes "callback (exec cfg tr)" and "length msg = 1 \<or> length msg = 2"
    and "7 \<le> main_count tr'"
  shows "step cfg (MidiIn msg wo) (exec cfg tr) =
           stop ((exec cfg tr)\<lparr>printed := printed (exec cfg tr) @ [Traceback IndexError]\<rparr>) \<and>
         ser_written (step cfg (MidiIn msg wo) (exec cfg tr)) = ser_written (exec cfg tr) \<and>
         should_stop (step cfg (MidiIn msg wo) (exec cfg tr)) \<and>
         pc (exec cfg (tr @ [MidiIn msg wo] @ tr')) = PC_stopped \<and>
         handles (exec cfg (tr @ [MidiIn msg wo] @ tr')) = [1] \<and>
         midi_in_closed (exec cfg (tr @ [MidiIn msg wo] @ tr')) = 1 \<and>
         midi_out_closed (exec cfg (tr @ [MidiIn msg wo] @ tr')) = 1"
proof -
  let ?s = "exec cfg tr"
  let ?t = "?s\<lparr>printed := printed ?s @ [Traceback IndexError]\<rparr>"
  have inv: "bridge_inv ?s" by (rule inv_exec)
  have eq: "step cfg (MidiIn msg wo) ?s = stop ?t"
    using assms(1,2) by (rule midi_short_step)
  have "stopping (stop ?t)"
    using inv assms(1) by (intro stopping_stop) simp_all
  then have fin: "pc (steps cfg tr' (stop ?t)) = PC_stopped \<and>
      handles (steps cfg tr' (stop ?t)) = [1] \<and>
      midi_in_closed (steps cfg tr' (stop ?t)) = 1 \<and>
      midi_out_closed (steps cfg tr' (stop ?t)) = 1"
    using assms(3) by (rule stopping_reaches_stopped)
  have run: "exec cfg (tr @ [MidiIn msg wo] @ tr') = steps cfg tr' (stop ?t)"
    using eq by (simp add: exec_append steps_append)
  show ?thesis
    using eq fin stop_effect [of ?t] unfolding run by simp
qed

text \<open>
  The connected bridge receives a program change (two bytes): nothing is written and
  seven steps of \<^verbatim>\<open>run\<close> later the bridge is stopped.
\<close>

theorem C10_short_message_stops_bridge_witness:
  "callback (exec cfg0 connect) \<and>
   ser_written (step cfg0 (MidiIn [0xC0, 0x05] WriteOk) (exec cfg0 connect)) = [] \<and>
   should_stop (step cfg0 (MidiIn [0xC0, 0x05] WriteOk) (exec cfg0 connect)) \<and>
   pc (exec cfg0 (connect @ [MidiIn [0xC0, 0x05] WriteOk] @
        [main_ok, main_ok, main_ok, main_ok, main_ok, main_ok, main_ok])) = PC_stopped"
proof -
  have h1: "callback (exec cfg0 connect)" by (simp add: connect_state)
  have h2: "length [0xC0, 0x05 :: byte] = 1 \<or> length [0xC0, 0x05 :: byte] = 2" by simp
  have h3: "7 \<le> main_count [main_ok, main_ok, main_ok, main_ok, main_ok, main_ok, main_ok]"
    by (simp add: main_ok_def)
  show ?thesis
    using C10_short_message_stops_bridge [OF h1 h2 h3, of WriteOk] h1
    by (simp add: connect_state stop_def Let_def)
qed

subsection \<open>Manual device\<close>





subsection \<open>The warn logger\<close>

lemma warn_nothing: "warn m = []"
  by (simp add: warn_def logger_def LOG_LEVELS_def)

lemma warn_lines_step: "warn_lines (printed (step cfg ev s)) = warn_lines (printed s)"
  by (cases ev; cases "pc s")
    (auto simp: warn_lines_def step_def run_step_def stop_def process_midi_out_def worker_def
       process_serial_in_def Let_def info_def warn_def error_def logger_def LOG_LEVELS_def
       logException_def
       split: option.splits bool.splits sum.splits list.splits open_outcome.splits
         write_outcome.splits read_outcome.splits)

lemma warn_lines_steps: "warn_lines (printed (steps cfg tr s)) = warn_lines (printed s)"
  by (induction tr arbitrary: s) (simp_all add: warn_lines_step)

lemma open_third_time_state:
  "exec cfg0 open_third_time =
     \<lparr>should_stop = False, interrupt = None, pc = PC_install,
      device_path = Some ''/dev/ttyUSB0'', ser = Some 0, stop_serial = None,
      handles = [0], workers = [], callback = False,
      midi_in_closed = 0, midi_out_closed = 0, midi_sent = [], ser_written = [],
      printed = [Line INFO (MidiDeviceCreated ''Serial2MIDI''),
                 Line INFO (UsingSerialDevice (Some ''/dev/ttyUSB0''))],
      sleeps = [(SleepOpenRetry, 3 / 10), (SleepOpenRetry, 3 / 10)], discoveries = 0,
      opens = [(Some ''/dev/ttyUSB0'', False), (Some ''/dev/ttyUSB0'', False),
               (Some ''/dev/ttyUSB0'', True)]\<rparr>"
  by (simp add: run_defs example_defs)

text \<open>
  C9, as the claim states it: when the device fails to open twice and then opens, two
  WARN lines are printed. In that run the two attempts fail and the third returns a
  handle, and the number of WARN lines printed is not two: there is none.
\<close>

theorem C9_two_warn_lines_counterexample:
  "opens (exec cfg0 open_third_time) =
     [(Some ''/dev/ttyUSB0'', False), (Some ''/dev/ttyUSB0'', False),
      (Some ''/dev/ttyUSB0'', True)] \<and>
   pc (exec cfg0 open_third_time) = PC_install \<and>
   length (warn_lines (printed (exec cfg0 open_third_time))) \<noteq> 2 \<and>
   warn_lines (printed (exec cfg0 open_third_time)) = []"
  by (simp add: open_third_time_state warn_lines_def)

text \<open>
  C9, amended. A failed attempt to open the device calls \<^verbatim>\<open>warn\<close> once, and under the
  configured gate \<^verbatim>\<open>LOG_LEVELS = [LogLevel.INFO]\<close> that call prints nothing: no execution
  ever prints a WARN line. In particular, when the device fails to open twice and then
  opens, the two failures are each followed by a sleep of the configured interval, the
  third attempt gives the handle, and no WARN line is printed.
\<close>

theorem C9_no_warn_line_is_printed:
  "warn SerialOpenFailed = [] \<and> warn_lines (printed (exec cfg tr)) = [] \<and>
   length (filter (\<lambda>a. \<not> snd a) (opens (exec cfg0 open_third_time))) = 2 \<and>
   sleeps (exec cfg0 open_third_time)
     = [(SleepOpenRetry, sleep_interval cfg0), (SleepOpenRetry, sleep_interval cfg0)] \<and>
   pc (exec cfg0 open_third_time) = PC_install \<and>
   warn_lines (printed (exec cfg0 open_third_time)) = []"
proof -
  have general: "warn_lines (printed (exec cfg tr)) = []"
    by (simp add: exec_def warn_lines_steps) (simp add: init_def warn_lines_def)
  have scenario: "length (filter (\<lambda>a. \<not> snd a) (opens (exec cfg0 open_third_time))) = 2 \<and>
      sleeps (exec cfg0 open_third_time)
        = [(SleepOpenRetry, sleep_interval cfg0), (SleepOpenRetry, sleep_interval cfg0)] \<and>
      pc (exec cfg0 open_third_time) = PC_install \<and>
      warn_lines (printed (exec cfg0 open_third_time)) = []"
    by (simp add: open_third_time_state warn_lines_def) (simp add: cfg0_def)
  show ?thesis
    using general scenario by (simp add: warn_nothing)
qed

subsection \<open>Device discovery\<close>











subsection \<open>The retry loop of open_serial\<close>

lemma stop_frame:
  "pc (stop s) = pc s \<and> sleeps (stop s) = sleeps s \<and> opens (stop s) = opens s"
  by (cases "interrupt s") (simp_all add: stop_def Let_def)

lemma process_midi_out_frame:
  "pc (process_midi_out msg wo s) = pc s \<and> sleeps (process_midi_out msg wo s) = sleeps s \<and>
   opens (process_midi_out msg wo s) = opens s"
  by (simp add: process_midi_out_def Let_def stop_frame split: option.splits write_outcome.splits)

lemma worker_frame2:
  "pc (worker i r s) = pc s \<and> sleeps (worker i r s) = sleeps s \<and> opens (worker i r s) = opens s"
  by (simp add: worker_def process_serial_in_def split: read_outcome.splits)

lemma pending_run_step:
  assumes "should_stop s"
  shows "length (retry_sleeps (run_step cfg ps oo s)) + pending_sleeps (run_step cfg ps oo s)
           \<le> length (retry_sleeps s) + pending_sleeps s \<and>
         length (opens (run_step cfg ps oo s)) + pending_opens (run_step cfg ps oo s)
           \<le> length (opens s) + pending_opens s"
  using assms
  by (cases "pc s")
    (simp_all add: retry_sleeps_def pending_sleeps_def pending_opens_def run_step_def Let_def
       split: option.splits bool.splits sum.splits list.splits open_outcome.splits)

lemma pending_step:
  assumes "should_stop s"
  shows "length (retry_sleeps (step cfg ev s)) + pending_sleeps (step cfg ev s)
           \<le> length (retry_sleeps s) + pending_sleeps s \<and>
         length (opens (step cfg ev s)) + pending_opens (step cfg ev s)
           \<le> length (opens s) + pending_opens s"
proof (cases ev)
  case (Main ps oo)
  then show ?thesis using pending_run_step [OF assms, of cfg ps oo] by (simp add: step_def)
next
  case Stop
  then show ?thesis
    by (simp add: step_def stop_frame retry_sleeps_def pending_sleeps_def pending_opens_def)
next
  case (MidiIn msg wo)
  then show ?thesis
    by (simp add: step_def process_midi_out_frame retry_sleeps_def pending_sleeps_def
          pending_opens_def)
next
  case (Reader i r)
  then show ?thesis
    by (simp add: step_def worker_frame2 retry_sleeps_def pending_sleeps_def pending_opens_def)
qed


lemma pending_steps:
  assumes "should_stop s"
  shows "length (retry_sleeps (steps cfg tr s)) + pending_sleeps (steps cfg tr s)
           \<le> length (retry_sleeps s) + pending_sleeps s \<and>
         length (opens (steps cfg tr s)) + pending_opens (steps cfg tr s)
           \<le> length (opens s) + pending_opens s"
  using assms
proof (induction tr arbitrary: s)
  case Nil
  then show ?case by simp
next
  case (Cons ev tr)
  have "should_stop (step cfg ev s)"
    using Cons.prems by (rule should_stop_step)
  from Cons.IH [OF this] pending_step [OF Cons.prems, of cfg ev] show ?case
    by simp
qed

lemma retry_round:
  assumes "pc s = PC_open_check" and "\<not> should_stop s"
  shows "steps cfg [Main ps OpenSerialException, Main ps OpenSerialException,
                    Main ps OpenSerialException] s =
           s\<lparr>opens := opens s @ [(device_path s, False)],
             sleeps := sleeps s @ [(SleepOpenRetry, sleep_interval cfg)]\<rparr>"
  using assms
  by (simp add: step_def run_step_def warn_def logger_def LOG_LEVELS_def)

lemma replicate_three: "replicate (3 * Suc n) x = [x, x, x] @ replicate (3 * n) x"
  by (simp add: numeral_3_eq_3)

lemma retry_rounds:
  assumes "pc s = PC_open_check" and "\<not> should_stop s"
  shows "steps cfg (replicate (3 * n) (Main ps OpenSerialException)) s =
           s\<lparr>opens := opens s @ replicate n (device_path s, False),
             sleeps := sleeps s @ replicate n (SleepOpenRetry, sleep_interval cfg)\<rparr>"
  using assms
proof (induction n arbitrary: s)
  case 0
  then show ?case by simp
next
  case (Suc n)
  let ?s1 = "s\<lparr>opens := opens s @ [(device_path s, False)],
               sleeps := sleeps s @ [(SleepOpenRetry, sleep_interval cfg)]\<rparr>"
  have r: "steps cfg [Main ps OpenSerialException, Main ps OpenSerialException,
                    Main ps OpenSerialException] s = ?s1"
    using Suc.prems by (rule retry_round)
  have "pc ?s1 = PC_open_check" and "\<not> should_stop ?s1"
    using Suc.prems by simp_all
  from Suc.IH [OF this]
  have "steps cfg (replicate (3 * n) (Main ps OpenSerialException)) ?s1 =
      ?s1\<lparr>opens := opens ?s1 @ replicate n (device_path ?s1, False),
          sleeps := sleeps ?s1 @ replicate n (SleepOpenRetry, sleep_interval cfg)\<rparr>" .
  then show ?case
    unfolding replicate_three steps_append r
    by (simp add: replicate_app_Cons_same)
qed


lemma stop_during_open_state:
  "exec cfg0 stop_during_open =
     \<lparr>should_stop = True, interrupt = None, pc = PC_open_try,
      device_path = Some ''/dev/ttyUSB0'', ser = None, stop_serial = None,
      handles = [], workers = [], callback = False,
      midi_in_closed = 0, midi_out_closed = 0, midi_sent = [], ser_written = [],
      printed = [Line INFO (MidiDeviceCreated ''Serial2MIDI''),
                 Line INFO (UsingSerialDevice (Some ''/dev/ttyUSB0''))],
      sleeps = [], discoveries = 0, opens = []\<rparr>"
  by (simp add: run_defs example_defs)

lemma sleep_interval_cfg0: "sleep_interval cfg0 = 3 / 10"
  by (simp add: cfg0_def)

text \<open>
  C6, as the claim states it: after a stop request no further sleep is performed inside
  the retry loop. A stop request arrives while the first attempt to open the device is
  under way; the attempt then fails, and the loop sleeps the configured interval before
  it tests the flag.
\<close>

theorem C6_sleep_after_stop_counterexample:
  "should_stop (exec cfg0 stop_during_open) \<and>
   pc (exec cfg0 stop_during_open) = PC_open_try \<and>
   sleeps (exec cfg0 stop_during_open) = [] \<and>
   sleeps (exec cfg0 (stop_during_open @ [main_fail, main_ok])) = [(SleepOpenRetry, 3 / 10)] \<and>
   pc (exec cfg0 (stop_during_open @ [main_fail, main_ok])) = PC_open_check"
proof -
  have "steps cfg0 [main_fail, main_ok] (exec cfg0 stop_during_open) =
      (exec cfg0 stop_during_open)\<lparr>opens := [(Some ''/dev/ttyUSB0'', False)],
         sleeps := [(SleepOpenRetry, sleep_interval cfg0)], pc := PC_open_check\<rparr>"
    by (simp add: stop_during_open_state step_def run_step_def main_fail_def main_ok_def
          warn_def logger_def LOG_LEVELS_def)
  then show ?thesis
    by (simp add: exec_append stop_during_open_state sleep_interval_cfg0)
qed

text \<open>
  C6, amended. The retry loop of \<^verbatim>\<open>open_serial\<close> tests \<^verbatim>\<open>should_stop\<close> once per turn,
  before the attempt to open the device. (1) While the flag is not set and the device
  fails to open, each turn makes one attempt and one sleep of the configured interval and
  comes back to the test, for any number \<open>n\<close> of turns. (2) When the test finds the flag
  set, the loop returns \<^verbatim>\<open>None\<close> at once, with no further attempt and no sleep. (3) A
  stop requested while an attempt or its sleep is under way is seen at the next test
  only: from any state with the flag set, whatever happens, the loop performs at most
  one more sleep (a whole one) and at most one more attempt.
\<close>

theorem C6_open_retry_loop:
  "(pc sa = PC_open_check \<and> \<not> should_stop sa \<longrightarrow>
      steps cfg (replicate (3 * n) (Main ps OpenSerialException)) sa =
        sa\<lparr>opens := opens sa @ replicate n (device_path sa, False),
           sleeps := sleeps sa @ replicate n (SleepOpenRetry, sleep_interval cfg)\<rparr>) \<and>
   (pc sb = PC_open_check \<and> should_stop sb \<longrightarrow>
      step cfg (Main ps oo) sb = sb\<lparr>ser := None, pc := PC_loop\<rparr>) \<and>
   (should_stop sc \<longrightarrow>
      length (retry_sleeps (steps cfg tr sc)) \<le> length (retry_sleeps sc) + 1 \<and>
      length (opens (steps cfg tr sc)) \<le> length (opens sc) + 1)"
proof (intro conjI impI)
  assume "pc sa = PC_open_check \<and> \<not> should_stop sa"
  then show "steps cfg (replicate (3 * n) (Main ps OpenSerialException)) sa =
        sa\<lparr>opens := opens sa @ replicate n (device_path sa, False),
           sleeps := sleeps sa @ replicate n (SleepOpenRetry, sleep_interval cfg)\<rparr>"
    by (intro retry_rounds) simp_all
next
  assume "pc sb = PC_open_check \<and> should_stop sb"
  then show "step cfg (Main ps oo) sb = sb\<lparr>ser := None, pc := PC_loop\<rparr>"
    by (simp add: step_def run_step_def)
next
  assume a: "should_stop sc"
  have "pending_sleeps sc \<le> 1"
    by (simp add: pending_sleeps_def)
  with pending_steps [OF a, of cfg tr]
  show "length (retry_sleeps (steps cfg tr sc)) \<le> length (retry_sleeps sc) + 1"
    by linarith
next
  assume a: "should_stop sc"
  have "pending_opens sc \<le> 1"
    by (simp add: pending_opens_def)
  with pending_steps [OF a, of cfg tr]
  show "length (opens (steps cfg tr sc)) \<le> length (opens sc) + 1"
    by linarith
qed

lemma at_open_check:
  "exec cfg0 [main_ok, main_ok] =
     \<lparr>should_stop = False, interrupt = None, pc = PC_open_check,
      device_path = Some ''/dev/ttyUSB0'', ser = None, stop_serial = None,
      handles = [], workers = [], callback = False,
      midi_in_closed = 0, midi_out_closed = 0, midi_sent = [], ser_written = [],
      printed = [Line INFO (MidiDeviceCreated ''Serial2MIDI''),
                 Line INFO (UsingSerialDevice (Some ''/dev/ttyUSB0''))],
      sleeps = [], discoveries = 0, opens = []\<rparr>"
  by (simp add: run_defs example_defs)

lemma stopped_at_open_check:
  "exec cfg0 [main_ok, main_ok, Stop] =
     \<lparr>should_stop = True, interrupt = None, pc = PC_open_check,
      device_path = Some ''/dev/ttyUSB0'', ser = None, stop_serial = None,
      handles = [], workers = [], callback = False,
      midi_in_closed = 0, midi_out_closed = 0, midi_sent = [], ser_written = [],
      printed = [Line INFO (MidiDeviceCreated ''Serial2MIDI''),
                 Line INFO (UsingSerialDevice (Some ''/dev/ttyUSB0''))],
      sleeps = [], discoveries = 0, opens = []\<rparr>"
  by (simp add: run_defs example_defs)

text \<open>
  The three parts on runs of the example configuration: two failed turns from the first
  test; a stop request before the first test; a stop request during the first attempt.
\<close>

theorem C6_open_retry_loop_witness:
  "pc (exec cfg0 [main_ok, main_ok]) = PC_open_check \<and>
   \<not> should_stop (exec cfg0 [main_ok, main_ok]) \<and>
   sleeps (steps cfg0 (replicate (3 * 2) (Main [] OpenSerialException))
       (exec cfg0 [main_ok, main_ok]))
     = [(SleepOpenRetry, sleep_interval cfg0), (SleepOpenRetry, sleep_interval cfg0)] \<and>
   pc (exec cfg0 [main_ok, main_ok, Stop]) = PC_open_check \<and>
   should_stop (exec cfg0 [main_ok, main_ok, Stop]) \<and>
   pc (step cfg0 (Main [] OpenOk) (exec cfg0 [main_ok, main_ok, Stop])) = PC_loop \<and>
   sleeps (step cfg0 (Main [] OpenOk) (exec cfg0 [main_ok, main_ok, Stop])) = [] \<and>
   should_stop (exec cfg0 stop_during_open) \<and>
   length (retry_sleeps (steps cfg0 [main_fail, main_ok, main_ok, main_ok, main_ok]
      (exec cfg0 stop_during_open))) \<le> 1"
proof -
  note inst = C6_open_retry_loop [where sa = "exec cfg0 [main_ok, main_ok]" and cfg = cfg0
      and n = 2 and ps = "[]" and sb = "exec cfg0 [main_ok, main_ok, Stop]" and oo = OpenOk
      and sc = "exec cfg0 stop_during_open"
      and tr = "[main_fail, main_ok, main_ok, main_ok, main_ok]"]
  have a: "pc (exec cfg0 [main_ok, main_ok]) = PC_open_check \<and>
      \<not> should_stop (exec cfg0 [main_ok, main_ok])"
    by (simp add: at_open_check)
  have b: "pc (exec cfg0 [main_ok, main_ok, Stop]) = PC_open_check \<and>
      should_stop (exec cfg0 [main_ok, main_ok, Stop])"
    by (simp add: stopped_at_open_check)
  have c: "should_stop (exec cfg0 stop_during_open)"
    by (simp add: stop_during_open_state)
  have t1: "steps cfg0 (replicate (3 * 2) (Main [] OpenSerialException))
        (exec cfg0 [main_ok, main_ok]) =
      (exec cfg0 [main_ok, main_ok])\<lparr>opens := opens (exec cfg0 [main_ok, main_ok]) @
          replicate 2 (device_path (exec cfg0 [main_ok, main_ok]), False),
        sleeps := sleeps (exec cfg0 [main_ok, main_ok]) @
          replicate 2 (SleepOpenRetry, sleep_interval cfg0)\<rparr>"
    using inst a by blast
  have t2: "step cfg0 (Main [] OpenOk) (exec cfg0 [main_ok, main_ok, Stop]) =
      (exec cfg0 [main_ok, main_ok, Stop])\<lparr>ser := None, pc := PC_loop\<rparr>"
    using inst b by blast
  have t3: "length (retry_sleeps (steps cfg0 [main_fail, main_ok, main_ok, main_ok, main_ok]
      (exec cfg0 stop_during_open))) \<le> length (retry_sleeps (exec cfg0 stop_during_open)) + 1"
    using inst c by blast
  have r1: "sleeps (steps cfg0 (replicate (3 * 2) (Main [] OpenSerialException))
       (exec cfg0 [main_ok, main_ok]))
     = [(SleepOpenRetry, sleep_interval cfg0), (SleepOpenRetry, sleep_interval cfg0)]"
    unfolding t1 by (simp add: at_open_check numeral_2_eq_2)
  have r2: "pc (step cfg0 (Main [] OpenOk) (exec cfg0 [main_ok, main_ok, Stop])) = PC_loop \<and>
      sleeps (step cfg0 (Main [] OpenOk) (exec cfg0 [main_ok, main_ok, Stop])) = []"
    unfolding t2 by (simp add: stopped_at_open_check)
  have r3: "length (retry_sleeps (steps cfg0 [main_fail, main_ok, main_ok, main_ok, main_ok]
      (exec cfg0 stop_during_open))) \<le> 1"
    using t3 by (simp add: retry_sleeps_def stop_during_open_state)
  show ?thesis
    using a b c r1 r2 r3 by simp
qed

end
